theory Spec2Isabelle
  imports Complex_Main
begin

section \<open>JavaScript library functions used by the services\<close>

text \<open>
  Strings are lists of bytes, the UTF-8 form of the JavaScript string; a text of ASCII
  characters occurs in the bytes exactly where it occurs in the string.
  \<open>String.prototype.toLowerCase\<close> is the platform's Unicode lower-casing and is a
  parameter of the functions that call it. On the ASCII characters it is
  \<open>toLowerChar\<close>: a capital letter becomes its small letter, wherever it stands.
\<close>

definition toLowerChar :: "char \<Rightarrow> char" where
  "toLowerChar c =
     (case map_of (zip ''ABCDEFGHIJKLMNOPQRSTUVWXYZ'' ''abcdefghijklmnopqrstuvwxyz'') c of
        Some l \<Rightarrow> l
      | None \<Rightarrow> c)"

text \<open>\<open>s.startsWith(sub)\<close> and \<open>s.includes(sub)\<close>.\<close>

fun startsWith :: "string \<Rightarrow> string \<Rightarrow> bool" where
  "startsWith s [] = True"
| "startsWith [] (c # sub) = False"
| "startsWith (d # s) (c # sub) = (d = c \<and> startsWith s sub)"

fun includes_js :: "string \<Rightarrow> string \<Rightarrow> bool" where
  "includes_js [] sub = (sub = [])"
| "includes_js (d # s) sub = (startsWith (d # s) sub \<or> includes_js s sub)"

text \<open>
  \<open>xs.indexOf(x)\<close>: the position of the first element equal to \<open>x\<close>, or \<open>-1\<close>.
  \<open>xs.splice(i, 1)\<close> removes the element at position \<open>i\<close>; \<open>xs.slice(-n)\<close> keeps the
  last \<open>n\<close> elements (all of them when there are fewer).
\<close>

fun indexOf :: "'a list \<Rightarrow> 'a \<Rightarrow> int" where
  "indexOf [] x = -1"
| "indexOf (y # ys) x =
     (if y = x then 0 else (let i = indexOf ys x in if i = -1 then -1 else i + 1))"

definition splice1 :: "int \<Rightarrow> 'a list \<Rightarrow> 'a list" where
  "splice1 i xs = take (nat i) xs @ drop (nat i + 1) xs"

definition slice_last :: "nat \<Rightarrow> 'a list \<Rightarrow> 'a list" where
  "slice_last n xs = drop (length xs - n) xs"


text \<open>
  \<open>[...new Set(xs)]\<close>: the elements are added to the set one by one, an element
  already in the set is skipped, and the set is read back in insertion order.
\<close>

definition set_add :: "'a list \<Rightarrow> 'a \<Rightarrow> 'a list" where
  "set_add members x = (if x \<in> set members then members else members @ [x])"

definition unique_js :: "'a list \<Rightarrow> 'a list" where
  "unique_js xs = foldl set_add [] xs"

text \<open>
  \<open>parseInt(s)\<close> with no radix: leading white space is skipped, a sign is read, a
  \<open>0x\<close> prefix selects radix 16, and the longest run of digits is converted;
  \<open>None\<close> is \<open>NaN\<close>. The numbers of the services (identifiers, page sizes,
  counts, status codes, times in milliseconds) are integers below \<open>2^53\<close>, which a
  JavaScript number holds exactly: they are \<open>int\<close>. \<open>parseInt\<close> and the
  conversion to a string below are those of JavaScript on these numbers only: a run of
  digits whose value is \<open>2^53\<close> or more is rounded by JavaScript and printed with
  an exponent from \<open>10^21\<close> on, which is not followed here.
\<close>

definition isWhiteSpace :: "char \<Rightarrow> bool" where
  "isWhiteSpace c \<longleftrightarrow> c \<in> set [CHR '' '', CHR 0x09, CHR 0x0A, CHR 0x0B, CHR 0x0C, CHR 0x0D]"

definition digitValue :: "char \<Rightarrow> nat option" where
  "digitValue c =
     map_of (zip ''0123456789abcdef'' [0, 1, 2, 3, 4, 5, 6, 7, 8, 9, 10, 11, 12, 13, 14, 15]
             @ zip ''ABCDEF'' [10, 11, 12, 13, 14, 15]) c"

definition isDigitIn :: "nat \<Rightarrow> char \<Rightarrow> bool" where
  "isDigitIn radix c = (case digitValue c of None \<Rightarrow> False | Some d \<Rightarrow> d < radix)"

definition digitsValue :: "nat \<Rightarrow> string \<Rightarrow> nat" where
  "digitsValue radix ds =
     foldl (\<lambda>acc c. acc * radix + (case digitValue c of None \<Rightarrow> 0 | Some d \<Rightarrow> d)) 0 ds"

definition parseInt :: "string \<Rightarrow> int option" where
  "parseInt s =
     (let s1 = dropWhile isWhiteSpace s;
          negative = startsWith s1 ''-'';
          s2 = (if startsWith s1 ''-'' \<or> startsWith s1 ''+'' then drop 1 s1 else s1);
          hex = (startsWith s2 ''0x'' \<or> startsWith s2 ''0X'');
          radix = (if hex then 16 else 10);
          s3 = (if hex then drop 2 s2 else s2);
          ds = takeWhile (isDigitIn radix) s3
      in if ds = [] then None
         else Some (if negative then - int (digitsValue radix ds) else int (digitsValue radix ds)))"

text \<open>
  The conversion of an integer below \<open>2^53\<close> to a string (\<open>`${n}`\<close>,
  \<open>n.toString()\<close>): decimal digits, with a minus sign for a negative number.
\<close>

fun string_of_nat :: "nat \<Rightarrow> string" where
  "string_of_nat n =
     (if n < 10 then [''0123456789'' ! n]
      else string_of_nat (n div 10) @ [''0123456789'' ! (n mod 10)])"

declare string_of_nat.simps [simp del]

definition numToString :: "int \<Rightarrow> string" where
  "numToString i = (if i < 0 then CHR ''-'' # string_of_nat (nat (- i)) else string_of_nat (nat i))"

text \<open>\<open>xs.join(',')\<close>.\<close>

fun join_comma :: "string list \<Rightarrow> string" where
  "join_comma [] = []"
| "join_comma [x] = x"
| "join_comma (x # y # ys) = x @ '','' @ join_comma (y # ys)"

text \<open>
  A JavaScript number that may be \<open>NaN\<close> (\<open>None\<close>); \<open>n < NaN\<close> is false.
\<close>

type_synonym number = "int option"

definition less_number :: "nat \<Rightarrow> number \<Rightarrow> bool" where
  "less_number n t = (case t of None \<Rightarrow> False | Some m \<Rightarrow> int n < m)"

text \<open>
  What \<open>await fetch(url)\<close> gives: the promise rejects with an error message, or
  resolves to a response with \<open>ok\<close>, \<open>status\<close>, the \<open>X-WP-Total\<close> header and a
  body; \<open>await response.json()\<close> rejects (\<open>Inl\<close>) or gives the decoded array.
\<close>

record 'a response =
  resp_ok :: bool
  resp_status :: int
  resp_total :: "string option"
  resp_json :: "string + 'a list"

datatype 'a fetch_result = Rejected string | Resolved "'a response"


section \<open>The posts of the content source\<close>

text \<open>
  \<open>WordPressPost\<close>, with the fields the services read: \<open>id\<close>, \<open>date\<close>,
  \<open>title.rendered\<close> and \<open>content.rendered\<close>.
\<close>

record post =
  post_id :: int
  post_date :: string
  title_rendered :: string
  content_rendered :: string


section \<open>RealtimeService\<close>

datatype update_type = New_article | Updated_article | Breaking_news

text \<open>
  A \<open>RealtimeUpdate\<close>. Times are milliseconds since the epoch (the source stores
  the ISO rendering of the same instant).
\<close>

record realtime_update =
  upd_type :: update_type
  upd_article :: post
  upd_timestamp :: int

text \<open>
  A subscriber is a function reference; \<open>indexOf\<close> compares references, so a
  callback is represented by the identity of its function object.
\<close>

type_synonym callback = nat

text \<open>
  The fields of the service. \<open>lastArticleIds\<close> is a JavaScript \<open>Set\<close>, which
  iterates in insertion order: it is the list of its members, oldest first.
\<close>

record realtime_service =
  lastUpdateTime :: int
  isPolling :: bool
  subscribers :: "callback list"
  lastArticleIds :: "int list"

subsection \<open>detectNewArticles\<close>

text \<open>One round of the \<open>forEach\<close>: the pair is \<open>(newArticles, this.lastArticleIds)\<close>.\<close>

definition detect_one :: "post list \<times> int list \<Rightarrow> post \<Rightarrow> post list \<times> int list" where
  "detect_one acc article =
     (if post_id article \<notin> set (snd acc)
      then (fst acc @ [article], snd acc @ [post_id article])
      else acc)"

definition detectNewArticles ::
  "post list \<Rightarrow> realtime_service \<Rightarrow> post list \<times> realtime_service" where
  "detectNewArticles articles s =
     (let acc = foldl detect_one ([], lastArticleIds s) articles;
          ids = (if length (snd acc) > 100 then slice_last 50 (snd acc) else snd acc)
      in (fst acc, s\<lparr>lastArticleIds := ids\<rparr>))"

subsection \<open>determineUpdateType\<close>

text \<open>
  \<open>toLowerCase\<close> is the platform's lower-casing. \<open>new Date(article.date)\<close> is the
  platform's date parser, taken as the parameter \<open>parseDate\<close> (\<open>None\<close> is an
  invalid date, which compares false with everything); \<open>now\<close> is \<open>Date.now()\<close>.
\<close>

definition determineUpdateType ::
  "(string \<Rightarrow> string) \<Rightarrow> (string \<Rightarrow> int option) \<Rightarrow> int \<Rightarrow> post \<Rightarrow> update_type" where
  "determineUpdateType toLowerCase parseDate now article =
     (let title = toLowerCase (title_rendered article);
          content = toLowerCase (content_rendered article)
      in if includes_js title ''breaking'' \<or> includes_js title ''urgent'' \<or>
            includes_js content ''breaking'' \<or> includes_js content ''urgent''
         then Breaking_news
         else (let articleDate = parseDate (post_date article);
                   oneHourAgo = now - 60 * 60 * 1000
               in if (case articleDate of None \<Rightarrow> False | Some t \<Rightarrow> t > oneHourAgo)
                  then New_article
                  else Updated_article))"

subsection \<open>subscribe and notifySubscribers\<close>

text \<open>The function that \<open>subscribe(callback)\<close> returns, applied to the service.\<close>

definition unsubscribe :: "callback \<Rightarrow> realtime_service \<Rightarrow> realtime_service" where
  "unsubscribe cb s =
     (let index = indexOf (subscribers s) cb
      in if index > -1 then s\<lparr>subscribers := splice1 index (subscribers s)\<rparr> else s)"

definition subscribe ::
  "callback \<Rightarrow> realtime_service \<Rightarrow> realtime_service \<times> (realtime_service \<Rightarrow> realtime_service)" where
  "subscribe cb s = (s\<lparr>subscribers := subscribers s @ [cb]\<rparr>, unsubscribe cb)"

text \<open>
  \<open>notifySubscribers\<close> calls every subscriber in order, each inside its own
  \<open>try\<close>: the deliveries made, as (callback, update) pairs.
\<close>

definition notifySubscribers ::
  "realtime_update \<Rightarrow> realtime_service \<Rightarrow> (callback \<times> realtime_update) list" where
  "notifySubscribers u s = map (\<lambda>cb. (cb, u)) (subscribers s)"

definition make_update ::
  "(string \<Rightarrow> string) \<Rightarrow> (string \<Rightarrow> int option) \<Rightarrow> int \<Rightarrow> post \<Rightarrow> realtime_update" where
  "make_update toLowerCase parseDate now article =
     \<lparr>upd_type = determineUpdateType toLowerCase parseDate now article,
      upd_article = article,
      upd_timestamp = now\<rparr>"

subsection \<open>checkForUpdates\<close>

text \<open>
  The outcome of \<open>await wordpressService.getPosts(n)\<close> is \<open>Inr articles\<close>, or
  \<open>Inl message\<close> when the promise rejects.
\<close>

definition checkForUpdates ::
  "(string \<Rightarrow> string) \<Rightarrow> (string \<Rightarrow> int option) \<Rightarrow> int \<Rightarrow> string + post list
     \<Rightarrow> realtime_service \<Rightarrow> realtime_update list \<times> realtime_service" where
  "checkForUpdates toLowerCase parseDate now outcome s =
     (case outcome of
        Inl err \<Rightarrow> ([], s)
      | Inr articles \<Rightarrow>
          (let r = detectNewArticles articles s
           in (map (make_update toLowerCase parseDate now) (fst r), snd r)))"

subsection \<open>Polling\<close>

text \<open>
  \<open>pollForUpdates\<close> is an async function with one \<open>await\<close>. The event loop around
  the service holds the calls of \<open>getPosts\<close> that polls are waiting for
  (\<open>inflight\<close>), the callbacks that \<open>setTimeout\<close> has scheduled and that have not
  fired yet (\<open>timers\<close>), and the deliveries made so far.
\<close>

record runtime =
  service :: realtime_service
  inflight :: nat
  timers :: nat
  delivered :: "(callback \<times> realtime_update) list"

text \<open>The part of \<open>pollForUpdates\<close> before the \<open>await\<close>.\<close>

definition pollForUpdates :: "runtime \<Rightarrow> runtime" where
  "pollForUpdates r =
     (if \<not> isPolling (service r) then r else r\<lparr>inflight := inflight r + 1\<rparr>)"

text \<open>
  The part after the \<open>await\<close>: the \<open>try\<close> body or the \<open>catch\<close>, then the
  unconditional \<open>setTimeout\<close>.
\<close>

definition pollForUpdates_resume ::
  "(string \<Rightarrow> string) \<Rightarrow> (string \<Rightarrow> int option) \<Rightarrow> int \<Rightarrow> string + post list
     \<Rightarrow> runtime \<Rightarrow> runtime" where
  "pollForUpdates_resume toLowerCase parseDate now outcome r =
     (let r1 =
        (case outcome of
           Inl err \<Rightarrow> r
         | Inr articles \<Rightarrow>
             (let d = detectNewArticles articles (service r);
                  updates = map (make_update toLowerCase parseDate now) (fst d);
                  s1 = snd d
              in r\<lparr>service := s1\<lparr>lastUpdateTime := now\<rparr>,
                   delivered := delivered r @ concat (map (\<lambda>u. notifySubscribers u s1) updates)\<rparr>))
      in r1\<lparr>inflight := inflight r1 - 1, timers := timers r1 + 1\<rparr>)"

definition startPolling :: "runtime \<Rightarrow> runtime" where
  "startPolling r =
     (if isPolling (service r) then r
      else pollForUpdates (r\<lparr>service := (service r)\<lparr>isPolling := True\<rparr>\<rparr>))"

definition stopPolling :: "runtime \<Rightarrow> runtime" where
  "stopPolling r = r\<lparr>service := (service r)\<lparr>isPolling := False\<rparr>\<rparr>"

text \<open>
  What can happen next: a call from the application, a pending \<open>getPosts\<close> of a
  poll settling, or a scheduled timer firing. An event that cannot happen in the
  state (no poll in flight, no timer pending) gives \<open>None\<close>.
\<close>

datatype event =
    StartPolling
  | StopPolling
  | Subscribe callback
  | Unsubscribe callback
  | CheckForUpdates int "string + post list"
  | FetchSettles int "string + post list"
  | TimerFires

definition step ::
  "(string \<Rightarrow> string) \<Rightarrow> (string \<Rightarrow> int option) \<Rightarrow> event \<Rightarrow> runtime \<Rightarrow> runtime option" where
  "step toLowerCase parseDate e r =
     (case e of
        StartPolling \<Rightarrow> Some (startPolling r)
      | StopPolling \<Rightarrow> Some (stopPolling r)
      | Subscribe cb \<Rightarrow> Some (r\<lparr>service := fst (subscribe cb (service r))\<rparr>)
      | Unsubscribe cb \<Rightarrow> Some (r\<lparr>service := unsubscribe cb (service r)\<rparr>)
      | CheckForUpdates now outcome \<Rightarrow>
          Some (r\<lparr>service :=
                   snd (checkForUpdates toLowerCase parseDate now outcome (service r))\<rparr>)
      | FetchSettles now outcome \<Rightarrow>
          (if inflight r = 0 then None
           else Some (pollForUpdates_resume toLowerCase parseDate now outcome r))
      | TimerFires \<Rightarrow>
          (if timers r = 0 then None else Some (pollForUpdates (r\<lparr>timers := timers r - 1\<rparr>))))"

fun run ::
  "(string \<Rightarrow> string) \<Rightarrow> (string \<Rightarrow> int option) \<Rightarrow> event list \<Rightarrow> runtime \<Rightarrow> runtime option" where
  "run toLowerCase parseDate [] r = Some r"
| "run toLowerCase parseDate (e # es) r =
     (case step toLowerCase parseDate e r of
        None \<Rightarrow> None
      | Some r' \<Rightarrow> run toLowerCase parseDate es r')"

text \<open>The service as constructed, at time \<open>t0\<close>, with nothing scheduled.\<close>

definition new_service :: "int \<Rightarrow> realtime_service" where
  "new_service t0 = \<lparr>lastUpdateTime = t0, isPolling = False, subscribers = [], lastArticleIds = []\<rparr>"

definition boot :: "int \<Rightarrow> runtime" where
  "boot t0 = \<lparr>service = new_service t0, inflight = 0, timers = 0, delivered = []\<rparr>"


section \<open>WordPressService\<close>

definition WORDPRESS_API_URL :: string where
  "WORDPRESS_API_URL = ''https://eastidahonews.com/wp-json/wp/v2''"

definition featuredCategoryIds :: "string list" where
  "featuredCategoryIds =
     [''33629'', ''33654'', ''33557'', ''34697'', ''25233'', ''33635'', ''31250'',
      ''35316'', ''27012'', ''33641'', ''33627'', ''33660'', ''32014'']"

definition sportsCategoryIds :: "string list" where
  "sportsCategoryIds =
     [''34638'', ''34690'', ''14222'', ''34596'', ''34598'', ''34594'', ''34601'',
      ''34609'', ''34615'', ''34667'', ''34666'', ''34634'', ''34617'', ''34607'',
      ''34608'', ''34600'', ''34602'', ''34603'']"

text \<open>
  The two endpoints are two oracles from the URL requested to what the fetch gives.
  The categories endpoint answers with an array of category objects, of which only
  \<open>id\<close> is read: the array of their ids. Every function returns the URLs it
  requested, in order, beside its result.
\<close>

definition categoryUrl :: "string \<Rightarrow> string" where
  "categoryUrl slug = WORDPRESS_API_URL @ ''/categories?slug='' @ slug"

definition getCategoryId ::
  "(string \<Rightarrow> int fetch_result) \<Rightarrow> string \<Rightarrow> string list \<times> int option" where
  "getCategoryId fetchCategories slug =
     ([categoryUrl slug],
      (case fetchCategories (categoryUrl slug) of
         Rejected err \<Rightarrow> None
       | Resolved response \<Rightarrow>
           if \<not> resp_ok response then None
           else (case resp_json response of
                   Inl err \<Rightarrow> None
                 | Inr categories \<Rightarrow>
                     (case categories of [] \<Rightarrow> None | c # cs \<Rightarrow> Some c))))"

text \<open>
  What \<open>getPosts\<close> ends with: the decoded posts, the mock posts
  \<open>this.getMockPosts(categorySlug)\<close> of the CORS branch (kept as the call), or the
  error thrown again.
\<close>

datatype posts_outcome = Returned "post list" | ReturnedMock string | Thrown string

definition postsUrl :: "int \<Rightarrow> int \<Rightarrow> string" where
  "postsUrl perPage page =
     WORDPRESS_API_URL @ ''/posts?per_page='' @ numToString perPage
       @ ''&page='' @ numToString page @ ''&_embed''"

text \<open>The \<open>catch\<close> block of \<open>getPosts\<close>.\<close>

definition getPosts_catch :: "string \<Rightarrow> string \<Rightarrow> posts_outcome" where
  "getPosts_catch categorySlug message =
     (if includes_js message ''CORS'' then ReturnedMock categorySlug else Thrown message)"

text \<open>
  The rest of \<open>getPosts\<close> once the URL is built: the fetch has given \<open>fetched\<close>.
\<close>

definition getPosts_finish :: "string \<Rightarrow> post fetch_result \<Rightarrow> posts_outcome" where
  "getPosts_finish categorySlug fetched =
     (case fetched of
        Rejected message \<Rightarrow> getPosts_catch categorySlug message
      | Resolved response \<Rightarrow>
          if \<not> resp_ok response
          then getPosts_catch categorySlug
                 (''HTTP error! status: '' @ numToString (resp_status response))
          else (case resp_json response of
                  Inl message \<Rightarrow> getPosts_catch categorySlug message
                | Inr data \<Rightarrow> Returned data))"

definition getPosts ::
  "(string \<Rightarrow> post fetch_result) \<Rightarrow> (string \<Rightarrow> int fetch_result)
     \<Rightarrow> int \<Rightarrow> string \<Rightarrow> int \<Rightarrow> string list \<times> posts_outcome" where
  "getPosts fetchPosts fetchCategories perPage categorySlug page =
     (let url0 = postsUrl perPage page;
          built =
            (if categorySlug \<noteq> '''' then
               (if categorySlug = ''featured-all'' then
                  ([], url0 @ ''&categories='' @ join_comma featuredCategoryIds)
                else if categorySlug = ''sports-all'' then
                  ([], url0 @ ''&categories='' @ join_comma sportsCategoryIds)
                else
                  (case parseInt categorySlug of
                     Some categoryId \<Rightarrow> ([], url0 @ ''&categories='' @ numToString categoryId)
                   | None \<Rightarrow>
                       (let looked = getCategoryId fetchCategories categorySlug
                        in (fst looked,
                            (case snd looked of
                               None \<Rightarrow> url0
                             | Some fetchedCategoryId \<Rightarrow>
                                 if fetchedCategoryId \<noteq> 0
                                 then url0 @ ''&categories='' @ numToString fetchedCategoryId
                                 else url0)))))
             else ([], url0));
          url = snd built
      in (fst built @ [url], getPosts_finish categorySlug (fetchPosts url)))"


section \<open>ArchiveService\<close>

text \<open>\<open>ArchiveOptions\<close>: every field may be absent.\<close>

record archive_options =
  category :: "string option"
  search :: "string option"
  dateFrom :: "string option"
  dateTo :: "string option"
  author :: "string option"
  perPage :: "int option"

text \<open>
  The service: \<open>cachedStories\<close> is a \<open>Map\<close> from cache key to stories,
  \<open>totalStories\<close> one number for the whole service.
\<close>

record archive_service =
  cachedStories :: "string \<rightharpoonup> post list"
  totalStories :: number
  isLoading :: bool

record stories_result =
  stories :: "post list"
  total :: number
  hasMore :: bool

text \<open>The destructuring defaults of \<open>getStories\<close>.\<close>

definition or_default :: "'a option \<Rightarrow> 'a \<Rightarrow> 'a" where
  "or_default v d = (case v of None \<Rightarrow> d | Some x \<Rightarrow> x)"

definition cacheKey :: "archive_options \<Rightarrow> string" where
  "cacheKey options =
     or_default (category options) '''' @ ''-'' @ or_default (search options) '''' @ ''-''
     @ or_default (dateFrom options) '''' @ ''-'' @ or_default (dateTo options) '''' @ ''-''
     @ or_default (author options) '''' @ ''-'' @ numToString (or_default (perPage options) 10)"

text \<open>
  The \<open>URLSearchParams\<close> of the request, as its list of entries; the fetch oracle
  of this service takes the entries (their encoding into the URL is not modelled).
\<close>

definition append_if :: "string \<Rightarrow> string \<Rightarrow> (string \<times> string) list" where
  "append_if name v = (if v \<noteq> '''' then [(name, v)] else [])"

definition searchParams :: "archive_options \<Rightarrow> (string \<times> string) list" where
  "searchParams options =
     [(''per_page'', numToString (or_default (perPage options) 10)), (''_embed'', ''true'')]
     @ append_if ''categories'' (or_default (category options) '''')
     @ append_if ''search'' (or_default (search options) '''')
     @ append_if ''after'' (or_default (dateFrom options) '''')
     @ append_if ''before'' (or_default (dateTo options) '''')
     @ append_if ''author'' (or_default (author options) '''')"

definition empty_result :: stories_result where
  "empty_result = \<lparr>stories = [], total = Some 0, hasMore = False\<rparr>"

text \<open>
  \<open>getStories\<close> returns its result, the service afterwards, and the requests it
  sent. A call runs to its end before the next one starts.
\<close>

definition getStories ::
  "((string \<times> string) list \<Rightarrow> post fetch_result) \<Rightarrow> archive_options \<Rightarrow> archive_service
     \<Rightarrow> stories_result \<times> archive_service \<times> (string \<times> string) list list" where
  "getStories fetch options s =
     (case cachedStories s (cacheKey options) of
        Some cached \<Rightarrow>
          (\<lparr>stories = cached, total = totalStories s,
            hasMore = less_number (length cached) (totalStories s)\<rparr>, s, [])
      | None \<Rightarrow>
          (let params = searchParams options;
               failed = (empty_result, s\<lparr>isLoading := False\<rparr>, [params])
           in case fetch params of
                Rejected message \<Rightarrow> failed
              | Resolved response \<Rightarrow>
                  if \<not> resp_ok response then failed
                  else (case resp_json response of
                          Inl message \<Rightarrow> failed
                        | Inr fetched \<Rightarrow>
                            (let count =
                                   (case resp_total response of
                                      None \<Rightarrow> Some (int (length fetched))
                                    | Some t \<Rightarrow>
                                        if t \<noteq> '''' then parseInt t
                                        else Some (int (length fetched)))
                             in (\<lparr>stories = fetched, total = count,
                                   hasMore = less_number (length fetched) count\<rparr>,
                                 s\<lparr>cachedStories := (cachedStories s)(cacheKey options \<mapsto> fetched),
                                   totalStories := count, isLoading := False\<rparr>,
                                 [params])))))"

definition clearCache :: "archive_service \<Rightarrow> archive_service" where
  "clearCache s = s\<lparr>cachedStories := Map.empty, totalStories := Some 0\<rparr>"

definition new_archive :: archive_service where
  "new_archive = \<lparr>cachedStories = Map.empty, totalStories = Some 0, isLoading = False\<rparr>"


section \<open>StoryImage\<close>

text \<open>
  A \<open>WordPressImage\<close>: the original \<open>source_url\<close> and \<open>media_details?.sizes\<close>,
  an object from tier name to size, absent (\<open>None\<close>) or given with its entries in the
  order \<open>Object.values\<close> iterates them. An absent or empty \<open>source_url\<close> of a size
  is the empty string (both are falsy).
\<close>

record image_size =
  size_source_url :: string
  size_width :: int

record wp_image =
  source_url :: string
  sizes :: "(string \<times> image_size) list option"

datatype js_error = TypeError

text \<open>\<open>if (sizes?.tier?.source_url) urls.push(sizes.tier.source_url)\<close>: what is pushed.\<close>

definition push_tier :: "(string \<times> image_size) list option \<Rightarrow> string \<Rightarrow> string list" where
  "push_tier sz tier =
     (case sz of
        None \<Rightarrow> []
      | Some entries \<Rightarrow>
          (case map_of entries tier of
             None \<Rightarrow> []
           | Some entry \<Rightarrow>
               if size_source_url entry \<noteq> '''' then [size_source_url entry] else []))"

text \<open>
  \<open>xs.reduce(f)\<close> with no initial value starts from the first element and throws a
  \<open>TypeError\<close> on an empty array.
\<close>

definition reduce_js :: "('a \<Rightarrow> 'a \<Rightarrow> 'a) \<Rightarrow> 'a list \<Rightarrow> js_error + 'a" where
  "reduce_js f xs = (case xs of [] \<Rightarrow> Inl TypeError | x # rest \<Rightarrow> Inr (foldl f x rest))"

text \<open>
  The arithmetic of \<open>getImageUrl\<close> is that of JavaScript numbers: the result of a
  subtraction or a multiplication is the exact result rounded to the nearest double.
  The rounding is the parameter \<open>fl\<close>; a number stands for the real number it
  denotes (results are taken to be finite). Widths are integers, the target width is
  any number (\<open>screenWidth * 0.9\<close>).

  The callback of the \<open>reduce\<close> in \<open>getImageUrl\<close>; its \<open>best\<close> is always a size
  object, so the \<open>!best\<close> branch is never taken.
\<close>

definition closer ::
  "(real \<Rightarrow> real) \<Rightarrow> real \<Rightarrow> image_size \<Rightarrow> image_size \<Rightarrow> image_size" where
  "closer fl targetWidth best current =
     (let bestDiff = \<bar>fl (real_of_int (size_width best) - targetWidth)\<bar>;
          currentDiff = \<bar>fl (real_of_int (size_width current) - targetWidth)\<bar>
      in if currentDiff < bestDiff then current else best)"

definition availableSizes :: "(string \<times> image_size) list \<Rightarrow> image_size list" where
  "availableSizes entries = filter (\<lambda>entry. size_source_url entry \<noteq> '''') (map snd entries)"

text \<open>
  The array \<open>urlOptions\<close> that \<open>getImageUrl\<close> builds, before duplicates are
  removed; \<open>isWeb\<close> is \<open>Platform.OS === 'web'\<close>. An absent or zero
  \<open>targetWidth\<close> is falsy.
\<close>

definition urlOptions ::
  "(real \<Rightarrow> real) \<Rightarrow> bool \<Rightarrow> real option \<Rightarrow> wp_image \<Rightarrow> js_error + string list" where
  "urlOptions fl isWeb targetWidth img =
     (let sz = sizes img;
          originalUrl = source_url img;
          web = (if isWeb
                 then push_tier sz ''thumbnail'' @ push_tier sz ''medium''
                      @ push_tier sz ''woocommerce_thumbnail''
                 else []);
          fallback = push_tier sz ''thumbnail'' @ push_tier sz ''medium''
                     @ push_tier sz ''woocommerce_thumbnail'' @ push_tier sz ''medium_large''
                     @ push_tier sz ''large'' @ push_tier sz ''full'' @ [originalUrl]
      in case targetWidth of
           None \<Rightarrow> Inr (web @ fallback)
         | Some t \<Rightarrow>
             if t = 0 then Inr (web @ fallback)
             else (case sz of
                     None \<Rightarrow> Inr (web @ fallback)
                   | Some entries \<Rightarrow>
                       (case reduce_js (closer fl t) (availableSizes entries) of
                          Inl err \<Rightarrow> Inl err
                        | Inr bestSize \<Rightarrow>
                            Inr (web
                                 @ (if real_of_int (size_width bestSize) \<le> fl (t * 1.5)
                                    then [size_source_url bestSize] else [])
                                 @ fallback))))"

definition getImageUrl ::
  "(real \<Rightarrow> real) \<Rightarrow> bool \<Rightarrow> real option \<Rightarrow> wp_image option \<Rightarrow> js_error + string option" where
  "getImageUrl fl isWeb targetWidth given =
     (case given of
        None \<Rightarrow> Inr None
      | Some img \<Rightarrow>
          (case urlOptions fl isWeb targetWidth img of
             Inl err \<Rightarrow> Inl err
           | Inr opts \<Rightarrow>
               (case unique_js opts of
                  [] \<Rightarrow> Inr (Some (source_url img))
                | u # us \<Rightarrow> Inr (Some (if u \<noteq> '''' then u else source_url img)))))"

definition getAllUrls :: "wp_image option \<Rightarrow> string list" where
  "getAllUrls given =
     (case given of
        None \<Rightarrow> []
      | Some img \<Rightarrow>
          (let sz = sizes img
           in unique_js
                (push_tier sz ''thumbnail'' @ push_tier sz ''medium''
                 @ push_tier sz ''woocommerce_thumbnail'' @ push_tier sz ''medium_large''
                 @ push_tier sz ''large'' @ push_tier sz ''full''
                 @ (if source_url img \<noteq> '''' then [source_url img] else []))))"

text \<open>
  What the component \<open>StoryImage\<close> computes before it renders: \<open>targetWidth\<close>
  from the \<open>width\<close> property (a number, or \<open>None\<close> for a string such as the
  default '100%') and the screen width, then \<open>imageUrl = getImageUrl(targetWidth)\<close>,
  then \<open>allUrls = getAllUrls()\<close>. An exception of \<open>getImageUrl\<close> ends the render:
  \<open>getAllUrls\<close> is not reached.
\<close>

definition StoryImage ::
  "(real \<Rightarrow> real) \<Rightarrow> bool \<Rightarrow> real \<Rightarrow> real option \<Rightarrow> wp_image option
     \<Rightarrow> js_error + (string option \<times> string list)" where
  "StoryImage fl isWeb screenWidth width given =
     (let targetWidth = (case width of Some w \<Rightarrow> w | None \<Rightarrow> fl (screenWidth * fl (9 / 10)))
      in case getImageUrl fl isWeb (Some targetWidth) given of
           Inl err \<Rightarrow> Inl err
         | Inr imageUrl \<Rightarrow> Inr (imageUrl, getAllUrls given))"


section \<open>Notions of the specification\<close>

text \<open>
  The items of a batch that are new to the seen-set, in the order of the batch: an
  item is new when its identifier is neither in the set nor earlier in the batch.
\<close>

fun never_seen :: "int list \<Rightarrow> post list \<Rightarrow> post list" where
  "never_seen ids [] = []"
| "never_seen ids (a # as) =
     (if post_id a \<in> set ids then never_seen ids as
      else a # never_seen (ids @ [post_id a]) as)"

text \<open>A list without its repetitions, every element at its first position.\<close>

fun first_seen :: "'a list \<Rightarrow> 'a list" where
  "first_seen [] = []"
| "first_seen (x # xs) = x # filter (\<lambda>y. y \<noteq> x) (first_seen xs)"

text \<open>
  A text mentions a keyword when its lower-case form contains it; an item has a
  keyword when its title or its body mentions "breaking" or "urgent".
\<close>

definition mentions :: "(string \<Rightarrow> string) \<Rightarrow> string \<Rightarrow> string \<Rightarrow> bool" where
  "mentions toLowerCase txt keyword \<longleftrightarrow> (\<exists>u v. toLowerCase txt = u @ keyword @ v)"

definition has_keyword :: "(string \<Rightarrow> string) \<Rightarrow> post \<Rightarrow> bool" where
  "has_keyword toLowerCase a \<longleftrightarrow>
     mentions toLowerCase (title_rendered a) ''breaking''
     \<or> mentions toLowerCase (title_rendered a) ''urgent''
     \<or> mentions toLowerCase (content_rendered a) ''breaking''
     \<or> mentions toLowerCase (content_rendered a) ''urgent''"

text \<open>
  What lower-casing does to ASCII text inside any string: the text is still there,
  with its capital letters made small.
\<close>

definition lowers_ascii :: "(string \<Rightarrow> string) \<Rightarrow> bool" where
  "lowers_ascii toLowerCase \<longleftrightarrow>
     (\<forall>u w v. (\<forall>c \<in> set w. of_char c < (128::nat)) \<longrightarrow>
        (\<exists>u' v'. toLowerCase (u @ w @ v) = u' @ map toLowerChar w @ v'))"

text \<open>
  The distance of a tier's width from the target width, as the code computes it.
\<close>

definition width_diff :: "(real \<Rightarrow> real) \<Rightarrow> real \<Rightarrow> image_size \<Rightarrow> real" where
  "width_diff fl t tier = \<bar>fl (real_of_int (size_width tier) - t)\<bar>"

text \<open>The tier names that \<open>getImageUrl\<close> and \<open>getAllUrls\<close> look up.\<close>

definition tier_names :: "string list" where
  "tier_names =
     [''thumbnail'', ''medium'', ''woocommerce_thumbnail'', ''medium_large'', ''large'', ''full'']"

text \<open>
  The first match of the categories lookup for a slug, when the lookup answers with
  one.
\<close>

definition first_match :: "(string \<Rightarrow> int fetch_result) \<Rightarrow> string \<Rightarrow> int option" where
  "first_match fetchCategories slug =
     (case fetchCategories (categoryUrl slug) of
        Rejected err \<Rightarrow> None
      | Resolved response \<Rightarrow>
          (case resp_json response of
             Inl err \<Rightarrow> None
           | Inr ids \<Rightarrow> if resp_ok response \<and> ids \<noteq> [] then Some (hd ids) else None))"


text \<open>
  A fetch fails when the promise rejects (network error), the status is not OK, or
  the body does not decode.
\<close>

definition fetch_fails :: "'a fetch_result \<Rightarrow> bool" where
  "fetch_fails fetched =
     (case fetched of
        Rejected err \<Rightarrow> True
      | Resolved response \<Rightarrow>
          \<not> resp_ok response \<or> (case resp_json response of Inl err \<Rightarrow> True | Inr xs \<Rightarrow> False))"

text \<open>
  The six fields of a filter as \<open>getStories\<close> reads them (an absent field is its
  default).
\<close>

definition filter_fields ::
  "archive_options \<Rightarrow> string \<times> string \<times> string \<times> string \<times> string \<times> int" where
  "filter_fields options =
     (or_default (category options) '''', or_default (search options) '''',
      or_default (dateFrom options) '''', or_default (dateTo options) '''',
      or_default (author options) '''', or_default (perPage options) 10)"


text \<open>
  The tier of a list that is closest to the target width, the first such tier of
  the list when several are equally close.
\<close>

definition closest_first ::
  "(real \<Rightarrow> real) \<Rightarrow> real \<Rightarrow> image_size list \<Rightarrow> image_size \<Rightarrow> bool" where
  "closest_first fl t tiers best \<longleftrightarrow>
     (\<exists>before after.
        tiers = before @ best # after \<and>
        (\<forall>s \<in> set before. width_diff fl t best < width_diff fl t s) \<and>
        (\<forall>s \<in> set after. width_diff fl t best \<le> width_diff fl t s))"

text \<open>
  The candidates that do not depend on the target width: the small tiers that the
  web platform puts first, and the fixed preference order ending with the original.
\<close>

definition web_first :: "wp_image \<Rightarrow> string list" where
  "web_first img =
     push_tier (sizes img) ''thumbnail'' @ push_tier (sizes img) ''medium''
     @ push_tier (sizes img) ''woocommerce_thumbnail''"

definition fixed_order :: "wp_image \<Rightarrow> string list" where
  "fixed_order img =
     concat (map (push_tier (sizes img)) tier_names) @ [source_url img]"


section \<open>Sample data\<close>

text \<open>An image with the tiers thumbnail (150), medium (400) and large (1200).\<close>

definition three_tier_image :: wp_image where
  "three_tier_image =
     \<lparr>source_url = ''photo.jpg'',
      sizes = Some [(''thumbnail'', \<lparr>size_source_url = ''photo-150.jpg'', size_width = 150\<rparr>),
                    (''medium'', \<lparr>size_source_url = ''photo-400.jpg'', size_width = 400\<rparr>),
                    (''large'', \<lparr>size_source_url = ''photo-1200.jpg'', size_width = 1200\<rparr>)]\<rparr>"

definition story :: "int \<Rightarrow> post" where
  "story n = \<lparr>post_id = n, post_date = ''2024-05-01T12:00:00'', title_rendered = ''Story'',
              content_rendered = ''Text''\<rparr>"

text \<open>
  A server with 500 stories in all, of which it sends two per page, and one story
  matching any search.
\<close>

definition example_server :: "(string \<times> string) list \<Rightarrow> post fetch_result" where
  "example_server params =
     (if map_of params ''search'' = None
      then Resolved \<lparr>resp_ok = True, resp_status = 200, resp_total = Some ''500'',
                     resp_json = Inr [story 1, story 2]\<rparr>
      else Resolved \<lparr>resp_ok = True, resp_status = 200, resp_total = Some ''1'',
                     resp_json = Inr [story 3]\<rparr>)"

definition no_filter :: archive_options where
  "no_filter = \<lparr>category = None, search = None, dateFrom = None, dateTo = None,
                author = None, perPage = None\<rparr>"

text \<open>Calls of \<open>getStories\<close> one after the other: the result and the requests of each.\<close>

fun getStories_calls ::
  "((string \<times> string) list \<Rightarrow> post fetch_result) \<Rightarrow> archive_options list \<Rightarrow> archive_service
     \<Rightarrow> (stories_result \<times> (string \<times> string) list list) list" where
  "getStories_calls fetch [] s = []"
| "getStories_calls fetch (options # rest) s =
     (let r = getStories fetch options s
      in (fst r, snd (snd r)) # getStories_calls fetch rest (fst (snd r)))"


text \<open>
  An image with its original URL and no \<open>sizes\<close> object, and one whose \<open>sizes\<close>
  object is empty (\<open>"sizes": {}\<close>, as WordPress sends it for an image without
  generated sizes).
\<close>

definition bare_image :: wp_image where
  "bare_image = \<lparr>source_url = ''photo.jpg'', sizes = None\<rparr>"

definition empty_sizes_image :: wp_image where
  "empty_sizes_image = \<lparr>source_url = ''photo.jpg'', sizes = Some []\<rparr>"

text \<open>
  Arithmetic in which no result needs rounding: in the samples every difference and
  product is a small integer, which is a double.
\<close>

definition exact_arithmetic :: "real \<Rightarrow> real" where
  "exact_arithmetic x = x"

text \<open>Lower-casing of a text of ASCII characters.\<close>

definition ascii_toLowerCase :: "string \<Rightarrow> string" where
  "ascii_toLowerCase s = map toLowerChar s"

text \<open>
  A categories endpoint that cannot be reached; one that knows the slugs
  "7-questions" (id 33629) and "feel-good" (id 30654) of the application's category
  lists; and a posts endpoint that answers.
\<close>

definition offline_categories :: "string \<Rightarrow> int fetch_result" where
  "offline_categories url = Rejected ''Network request failed''"

definition categories_endpoint :: "string \<Rightarrow> int fetch_result" where
  "categories_endpoint url =
     Resolved \<lparr>resp_ok = True, resp_status = 200, resp_total = None,
               resp_json = Inr (if url = categoryUrl ''7-questions'' then [33629]
                                else if url = categoryUrl ''feel-good'' then [30654]
                                else [])\<rparr>"

definition posts_endpoint :: "string \<Rightarrow> post fetch_result" where
  "posts_endpoint url =
     Resolved \<lparr>resp_ok = True, resp_status = 200, resp_total = Some ''500'',
               resp_json = Inr [story 1, story 2]\<rparr>"

definition unreachable :: "(string \<times> string) list \<Rightarrow> post fetch_result" where
  "unreachable params = Rejected ''Network request failed''"


section \<open>Library functions: basic facts\<close>

lemma startsWith_iff: "startsWith s sub \<longleftrightarrow> (\<exists>v. s = sub @ v)"
  by (induction s sub rule: startsWith.induct) auto

lemma includes_js_iff: "includes_js s sub \<longleftrightarrow> (\<exists>u v. s = u @ sub @ v)"
proof (induction s)
  case Nil
  then show ?case by auto
next
  case (Cons d s)
  show ?case
  proof
    assume "includes_js (d # s) sub"
    then consider "startsWith (d # s) sub" | "includes_js s sub" by auto
    then show "\<exists>u v. d # s = u @ sub @ v"
    proof cases
      case 1
      then obtain v where "d # s = sub @ v" by (auto simp: startsWith_iff)
      then have "d # s = [] @ sub @ v" by simp
      then show ?thesis by blast
    next
      case 2
      then obtain u v where "s = u @ sub @ v" using Cons.IH by auto
      then have "d # s = (d # u) @ sub @ v" by simp
      then show ?thesis by blast
    qed
  next
    assume "\<exists>u v. d # s = u @ sub @ v"
    then obtain u v where uv: "d # s = u @ sub @ v" by blast
    show "includes_js (d # s) sub"
    proof (cases u)
      case Nil
      with uv have "startsWith (d # s) sub" by (auto simp: startsWith_iff)
      then show ?thesis by simp
    next
      case (Cons e u')
      with uv have "s = u' @ sub @ v" by simp
      then have "includes_js s sub" using Cons.IH by blast
      then show ?thesis by simp
    qed
  qed
qed

lemma indexOf_ge: "indexOf xs x \<ge> -1"
  by (induction xs) (auto simp: Let_def)

lemma indexOf_absent: "indexOf xs x = -1 \<longleftrightarrow> x \<notin> set xs"
proof (induction xs)
  case Nil
  then show ?case by simp
next
  case (Cons y ys)
  with indexOf_ge [of ys x] show ?case by (auto simp: Let_def)
qed

lemma splice1_indexOf: "x \<in> set xs \<Longrightarrow> splice1 (indexOf xs x) xs = remove1 x xs"
proof (induction xs)
  case Nil
  then show ?case by simp
next
  case (Cons y ys)
  show ?case
  proof (cases "y = x")
    case True
    then show ?thesis by (simp add: splice1_def)
  next
    case False
    with Cons.prems have mem: "x \<in> set ys" by simp
    then have ne: "indexOf ys x \<noteq> -1" by (simp add: indexOf_absent)
    with indexOf_ge [of ys x] have nn: "0 \<le> indexOf ys x" by linarith
    have "splice1 (indexOf ys x + 1) (y # ys) = y # splice1 (indexOf ys x) ys"
      using nn by (simp add: splice1_def nat_add_distrib)
    with False ne Cons.IH [OF mem] show ?thesis by (simp add: Let_def)
  qed
qed

lemma set_first_seen: "set (first_seen xs) = set xs"
  by (induction xs) auto

lemma distinct_first_seen: "distinct (first_seen xs)"
  by (induction xs) (auto simp: set_first_seen)

lemma foldl_set_add:
  "foldl set_add acc xs = acc @ filter (\<lambda>y. y \<notin> set acc) (first_seen xs)"
proof (induction xs arbitrary: acc)
  case Nil
  then show ?case by simp
next
  case (Cons x xs)
  show ?case
  proof (cases "x \<in> set acc")
    case True
    then have "filter (\<lambda>y. y \<noteq> x \<and> y \<notin> set acc) (first_seen xs)
             = filter (\<lambda>y. y \<notin> set acc) (first_seen xs)"
      by (intro filter_cong) auto
    with True Cons.IH [of acc] show ?thesis by (simp add: set_add_def)
  next
    case False
    have "filter (\<lambda>y. y \<notin> set (acc @ [x])) (first_seen xs)
        = filter (\<lambda>y. y \<noteq> x \<and> y \<notin> set acc) (first_seen xs)"
      by (intro filter_cong) auto
    with False Cons.IH [of "acc @ [x]"] show ?thesis by (simp add: set_add_def)
  qed
qed

lemma unique_js_first_seen: "unique_js xs = first_seen xs"
  by (simp add: unique_js_def foldl_set_add)


section \<open>RealtimeService: the seen-set\<close>

lemma foldl_detect_one:
  "foldl detect_one (new, ids) as
     = (new @ never_seen ids as, ids @ map post_id (never_seen ids as))"
  by (induction as arbitrary: new ids) (simp_all add: detect_one_def)

lemma fst_detectNewArticles: "fst (detectNewArticles as s) = never_seen (lastArticleIds s) as"
  by (simp add: detectNewArticles_def Let_def foldl_detect_one)

lemma ids_detectNewArticles:
  "lastArticleIds (snd (detectNewArticles as s)) =
     (let inserted = lastArticleIds s @ map post_id (never_seen (lastArticleIds s) as)
      in if length inserted > 100 then drop (length inserted - 50) inserted else inserted)"
  by (simp add: detectNewArticles_def Let_def foldl_detect_one slice_last_def)

text \<open>The list stays a set: no identifier is in it twice.\<close>

lemma never_seen_distinct:
  "distinct ids \<Longrightarrow> distinct (ids @ map post_id (never_seen ids as))"
proof (induction as arbitrary: ids)
  case Nil
  then show ?case by simp
next
  case (Cons a as)
  show ?case
  proof (cases "post_id a \<in> set ids")
    case True
    with Cons show ?thesis by simp
  next
    case False
    with Cons.prems have "distinct (ids @ [post_id a])" by simp
    from Cons.IH [OF this] False show ?thesis by simp
  qed
qed

lemma detectNewArticles_distinct:
  assumes "distinct (lastArticleIds s)"
  shows "distinct (lastArticleIds (snd (detectNewArticles as s)))"
proof -
  let ?ins = "lastArticleIds s @ map post_id (never_seen (lastArticleIds s) as)"
  have whole: "distinct ?ins"
    using assms by (rule never_seen_distinct)
  then have cut: "distinct (drop (length ?ins - 50) ?ins)"
    by (rule distinct_drop)
  show ?thesis
  proof (cases "100 < length ?ins")
    case True
    then have "lastArticleIds (snd (detectNewArticles as s)) = drop (length ?ins - 50) ?ins"
      by (simp add: ids_detectNewArticles Let_def)
    with cut show ?thesis by (simp only:)
  next
    case False
    then have "lastArticleIds (snd (detectNewArticles as s)) = ?ins"
      by (simp add: ids_detectNewArticles Let_def)
    with whole show ?thesis by (simp only:)
  qed
qed

text \<open>
  C3. After a detection step the seen-set has at most 100 identifiers, whatever it
  held before and whatever the batch. The step inserts the identifiers of the
  never-seen items of the batch after the ones already there; when that makes more
  than 100, the set is cut to exactly the 50 inserted last, the oldest being
  dropped, and otherwise nothing is dropped. The poll cycle and \<open>checkForUpdates\<close>
  both leave the service with the seen-set that this step computes.
\<close>

theorem seen_set_bounded:
  fixes s :: realtime_service and articles :: "post list"
  defines "inserted \<equiv> lastArticleIds s @ map post_id (fst (detectNewArticles articles s))"
  defines "after \<equiv> lastArticleIds (snd (detectNewArticles articles s))"
  shows "length after \<le> 100
    \<and> fst (detectNewArticles articles s) = never_seen (lastArticleIds s) articles
    \<and> after = (if length inserted > 100 then drop (length inserted - 50) inserted else inserted)
    \<and> length after = (if length inserted > 100 then 50 else length inserted)
    \<and> lastArticleIds (snd (checkForUpdates toLowerCase parseDate now (Inr articles) s)) = after
    \<and> lastArticleIds (service (pollForUpdates_resume toLowerCase parseDate now (Inr articles)
         (r\<lparr>service := s\<rparr>))) = after"
  unfolding inserted_def after_def
  by (auto simp add: fst_detectNewArticles ids_detectNewArticles Let_def checkForUpdates_def
        pollForUpdates_resume_def)

text \<open>
  The insertion number 101, made one at a time: the set held the identifiers 1 to
  100 and keeps 52 to 101.
\<close>

lemma insertion_101:
  "lastArticleIds (snd (detectNewArticles [story 101]
     ((new_service 0)\<lparr>lastArticleIds := map int [1..<101]\<rparr>))) = map int [52..<102]"
  by code_simp


text \<open>
  Over every execution of the service from its construction, the seen-set has at
  most 100 identifiers and holds none twice.
\<close>

lemma detectNewArticles_bounded: "length (lastArticleIds (snd (detectNewArticles as s))) \<le> 100"
  by (auto simp add: ids_detectNewArticles Let_def)

lemma step_seen_set:
  assumes "step toLowerCase parseDate e r = Some r'"
    and "length (lastArticleIds (service r)) \<le> 100 \<and> distinct (lastArticleIds (service r))"
  shows "length (lastArticleIds (service r')) \<le> 100 \<and> distinct (lastArticleIds (service r'))"
proof (cases e)
  case StartPolling
  with assms show ?thesis by (auto simp: step_def startPolling_def pollForUpdates_def)
next
  case StopPolling
  with assms show ?thesis by (auto simp: step_def stopPolling_def)
next
  case (Subscribe cb)
  with assms show ?thesis by (auto simp: step_def subscribe_def)
next
  case (Unsubscribe cb)
  with assms show ?thesis by (auto simp: step_def unsubscribe_def Let_def)
next
  case (CheckForUpdates now outcome)
  with assms detectNewArticles_bounded detectNewArticles_distinct show ?thesis
    by (cases outcome) (auto simp: step_def checkForUpdates_def Let_def)
next
  case (FetchSettles now outcome)
  with assms detectNewArticles_bounded detectNewArticles_distinct show ?thesis
    by (cases outcome)
       (auto simp: step_def pollForUpdates_resume_def Let_def split: if_splits)
next
  case TimerFires
  with assms show ?thesis by (auto simp: step_def pollForUpdates_def split: if_splits)
qed

lemma run_seen_set:
  "run toLowerCase parseDate es r = Some r' \<Longrightarrow>
   length (lastArticleIds (service r)) \<le> 100 \<and> distinct (lastArticleIds (service r)) \<Longrightarrow>
   length (lastArticleIds (service r')) \<le> 100 \<and> distinct (lastArticleIds (service r'))"
proof (induction es arbitrary: r)
  case Nil
  then show ?case by simp
next
  case (Cons e es)
  from Cons.prems(1) obtain r1 where s: "step toLowerCase parseDate e r = Some r1"
    and rest: "run toLowerCase parseDate es r1 = Some r'"
    by (auto split: option.splits)
  from step_seen_set [OF s Cons.prems(2)] Cons.IH [OF rest] show ?case by blast
qed

lemma seen_set_invariant:
  assumes "run toLowerCase parseDate es (boot t0) = Some r"
  shows "length (lastArticleIds (service r)) \<le> 100 \<and> distinct (lastArticleIds (service r))"
  using run_seen_set [OF assms] by (simp add: boot_def new_service_def)


section \<open>RealtimeService: the classifier\<close>

lemma determineUpdateType_cases:
  "determineUpdateType toLowerCase parseDate now a =
     (if has_keyword toLowerCase a then Breaking_news
      else if (\<exists>t. parseDate (post_date a) = Some t \<and> now - 3600000 < t) then New_article
      else Updated_article)"
  by (auto simp: determineUpdateType_def Let_def has_keyword_def mentions_def includes_js_iff
           split: option.splits)

lemma has_keyword_includes:
  "has_keyword toLowerCase a \<longleftrightarrow>
     includes_js (toLowerCase (title_rendered a)) ''breaking''
     \<or> includes_js (toLowerCase (title_rendered a)) ''urgent''
     \<or> includes_js (toLowerCase (content_rendered a)) ''breaking''
     \<or> includes_js (toLowerCase (content_rendered a)) ''urgent''"
  unfolding has_keyword_def mentions_def includes_js_iff ..

lemma upper_case_keyword:
  assumes "lowers_ascii toLowerCase"
  shows "mentions toLowerCase (u @ ''BREAKING'' @ v) ''breaking''"
proof -
  have "\<forall>c \<in> set ''BREAKING''. of_char c < (128::nat)"
    by simp
  with assms obtain u' v' where
    "toLowerCase (u @ ''BREAKING'' @ v) = u' @ map toLowerChar ''BREAKING'' @ v'"
    unfolding lowers_ascii_def by blast
  moreover have "map toLowerChar ''BREAKING'' = ''breaking''"
    by (simp add: toLowerChar_def)
  ultimately show ?thesis
    unfolding mentions_def by auto
qed

lemma ascii_toLowerCase_lowers: "lowers_ascii ascii_toLowerCase"
  unfolding lowers_ascii_def ascii_toLowerCase_def by (metis map_append)

text \<open>
  C4. Whatever the lower-casing and the date parser of the platform are, the
  classifier answers \<open>breaking_news\<close> exactly when the lower-cased title or body
  contains "breaking" or "urgent"; otherwise \<open>new_article\<close> exactly when the
  publish time is later than one hour before now; otherwise \<open>updated_article\<close>.
  Since lower-casing makes ASCII capitals small, a title containing "BREAKING"
  gives \<open>breaking_news\<close> at any publish time. An item without keywords published
  two hours ago is an \<open>updated_article\<close>, and one published ten minutes ago a
  \<open>new_article\<close>.
\<close>

theorem classification:
  "determineUpdateType toLowerCase parseDate now a =
     (if has_keyword toLowerCase a then Breaking_news
      else if (\<exists>t. parseDate (post_date a) = Some t \<and> now - 3600000 < t) then New_article
      else Updated_article)
   \<and> (lowers_ascii toLowerCase \<longrightarrow>
        determineUpdateType toLowerCase parseDate now (a\<lparr>title_rendered := u @ ''BREAKING'' @ v\<rparr>)
          = Breaking_news)
   \<and> (\<not> has_keyword toLowerCase a \<longrightarrow>
        determineUpdateType toLowerCase (\<lambda>d. Some (now - 2 * 3600000)) now a = Updated_article
        \<and> determineUpdateType toLowerCase (\<lambda>d. Some (now - 10 * 60000)) now a = New_article)"
proof -
  have upper: "determineUpdateType toLowerCase parseDate now
                 (a\<lparr>title_rendered := u @ ''BREAKING'' @ v\<rparr>) = Breaking_news"
    if "lowers_ascii toLowerCase"
    using upper_case_keyword [OF that, of u v]
    by (simp add: determineUpdateType_cases has_keyword_def)
  have plain: "determineUpdateType toLowerCase (\<lambda>d. Some (now - 2 * 3600000)) now a
                 = Updated_article
             \<and> determineUpdateType toLowerCase (\<lambda>d. Some (now - 10 * 60000)) now a
                 = New_article"
    if "\<not> has_keyword toLowerCase a"
    using that by (simp add: determineUpdateType_cases)
  from upper plain show ?thesis
    by (simp add: determineUpdateType_cases)
qed

theorem classification_witness:
  "lowers_ascii ascii_toLowerCase
   \<and> \<not> has_keyword ascii_toLowerCase (story 1)
   \<and> determineUpdateType ascii_toLowerCase (\<lambda>d. None) 1700000000000
        ((story 1)\<lparr>title_rendered := ''BREAKING: fire''\<rparr>) = Breaking_news
   \<and> determineUpdateType ascii_toLowerCase (\<lambda>d. Some (1700000000000 - 2 * 3600000))
        1700000000000 (story 1) = Updated_article
   \<and> determineUpdateType ascii_toLowerCase (\<lambda>d. Some (1700000000000 - 10 * 60000))
        1700000000000 (story 1) = New_article"
proof -
  have h1: "lowers_ascii ascii_toLowerCase"
    by (rule ascii_toLowerCase_lowers)
  have h2: "\<not> has_keyword ascii_toLowerCase (story 1)"
    by (simp add: has_keyword_includes story_def ascii_toLowerCase_def toLowerChar_def)
  from classification
         [of ascii_toLowerCase "\<lambda>d. None" 1700000000000 "story 1" "''''" "'': fire''"]
       h1 h2
  show ?thesis by simp
qed


section \<open>RealtimeService: subscriptions\<close>

lemma subscribers_unsubscribe: "subscribers (unsubscribe cb s) = remove1 cb (subscribers s)"
proof (cases "cb \<in> set (subscribers s)")
  case True
  then have "indexOf (subscribers s) cb \<noteq> -1" by (simp add: indexOf_absent)
  with indexOf_ge [of "subscribers s" cb] have "indexOf (subscribers s) cb > -1" by linarith
  with True show ?thesis by (simp add: unsubscribe_def Let_def splice1_indexOf)
next
  case False
  then have "indexOf (subscribers s) cb = -1" by (simp add: indexOf_absent)
  with False show ?thesis by (simp add: unsubscribe_def Let_def remove1_idem)
qed

lemma unsubscribe_absent: "cb \<notin> set (subscribers s) \<Longrightarrow> unsubscribe cb s = s"
  using indexOf_absent [of "subscribers s" cb] by (simp add: unsubscribe_def Let_def)

lemma filter_remove1_other: "filter (\<lambda>c. c \<noteq> x) (remove1 x xs) = filter (\<lambda>c. c \<noteq> x) xs"
  by (induction xs) auto

lemma remove1_single: "count_list xs x \<le> 1 \<Longrightarrow> x \<notin> set (remove1 x xs)"
proof (induction xs)
  case Nil
  then show ?case by simp
next
  case (Cons y ys)
  show ?case
  proof (cases "y = x")
    case True
    with Cons.prems have "count_list ys x = 0" by simp
    then have "x \<notin> set ys" by (simp add: count_list_0_iff)
    with True show ?thesis by simp
  next
    case False
    with Cons show ?thesis by simp
  qed
qed

text \<open>
  C10, as stated, fails: the same callback function is subscribed twice, and the
  handle of the first subscription is called twice. The first call leaves one
  registration, the second call removes that one as well, although it belongs to
  the other subscription.
\<close>

theorem unsubscribe_twice_counterexample:
  "subscribers (fst (subscribe 7 (fst (subscribe 7 (new_service 0))))) = [7, 7]
   \<and> subscribers (snd (subscribe 7 (new_service 0))
        (fst (subscribe 7 (fst (subscribe 7 (new_service 0)))))) = [7]
   \<and> subscribers (snd (subscribe 7 (new_service 0))
        (snd (subscribe 7 (new_service 0))
           (fst (subscribe 7 (fst (subscribe 7 (new_service 0))))))) = []"
  by (simp add: subscribe_def unsubscribe_def new_service_def splice1_def Let_def)

text \<open>
  C10, amended. The function returned by \<open>subscribe(callback)\<close> removes the
  earliest registration of that callback function, if there is one, and nothing
  else: the registrations of every other callback stay, in their order. When the
  callback function is registered at most once, the call removes exactly that
  registration and a second call changes nothing.
\<close>

theorem unsubscribe_removes_first_registration:
  "subscribers (snd (subscribe cb s0) s) = remove1 cb (subscribers s)
   \<and> filter (\<lambda>c. c \<noteq> cb) (subscribers (snd (subscribe cb s0) s))
       = filter (\<lambda>c. c \<noteq> cb) (subscribers s)
   \<and> (count_list (subscribers s) cb \<le> 1 \<longrightarrow>
        cb \<notin> set (subscribers (snd (subscribe cb s0) s))
        \<and> snd (subscribe cb s0) (snd (subscribe cb s0) s) = snd (subscribe cb s0) s)"
proof -
  have handle: "snd (subscribe cb s0) = unsubscribe cb"
    by (simp add: subscribe_def)
  have gone: "cb \<notin> set (subscribers (unsubscribe cb s))" if "count_list (subscribers s) cb \<le> 1"
    using that by (simp add: subscribers_unsubscribe remove1_single)
  then have "unsubscribe cb (unsubscribe cb s) = unsubscribe cb s"
    if "count_list (subscribers s) cb \<le> 1"
    using that by (simp add: unsubscribe_absent)
  with gone show ?thesis
    by (simp add: handle subscribers_unsubscribe filter_remove1_other)
qed

theorem unsubscribe_removes_first_registration_witness:
  "count_list (subscribers ((new_service 0)\<lparr>subscribers := [3, 7, 5]\<rparr>)) 7 \<le> 1
   \<and> subscribers (snd (subscribe 7 (new_service 0)) ((new_service 0)\<lparr>subscribers := [3, 7, 5]\<rparr>))
       = [3, 5]
   \<and> snd (subscribe 7 (new_service 0))
       (snd (subscribe 7 (new_service 0)) ((new_service 0)\<lparr>subscribers := [3, 7, 5]\<rparr>))
       = snd (subscribe 7 (new_service 0)) ((new_service 0)\<lparr>subscribers := [3, 7, 5]\<rparr>)"
  using unsubscribe_removes_first_registration
          [of 7 "new_service 0" "(new_service 0)\<lparr>subscribers := [3, 7, 5]\<rparr>"]
  by simp


section \<open>RealtimeService: polling\<close>

lemma startPolling_idempotent: "isPolling (service r) \<Longrightarrow> startPolling r = r"
  by (simp add: startPolling_def)

lemma stopPolling_keeps_timers:
  "timers (stopPolling r) = timers r \<and> inflight (stopPolling r) = inflight r
   \<and> \<not> isPolling (service (stopPolling r))"
  by (simp add: stopPolling_def)

text \<open>
  In any state, a stop followed by a start adds a poll to whatever is still in
  flight or scheduled.
\<close>

lemma restart_adds_poll:
  "inflight (startPolling (stopPolling r)) = inflight r + 1
   \<and> timers (startPolling (stopPolling r)) = timers r"
  by (simp add: startPolling_def stopPolling_def pollForUpdates_def)

text \<open>
  C2 on the code. \<open>stopPolling\<close> only clears the flag: the poll in flight and the
  scheduled timer stay. With \<open>startPolling\<close> right after it, a second poll starts
  beside the first, so two calls of \<open>getPosts\<close> are in flight at once; and when
  the first poll had already scheduled its timer, the restart leaves a timer and a
  poll, which become two polls in flight when the timer fires. Calling
  \<open>startPolling\<close> twice without the stop starts one poll only.
\<close>

theorem stop_then_start_two_cycles:
  "map_option inflight
     (run toLowerCase parseDate [StartPolling, StopPolling, StartPolling] (boot 0)) = Some 2
   \<and> map_option (\<lambda>r. (inflight r, timers r))
       (run toLowerCase parseDate
          [StartPolling, FetchSettles 1 (Inr []), StopPolling, StartPolling] (boot 0))
       = Some (1, 1)
   \<and> map_option (\<lambda>r. (inflight r, timers r))
       (run toLowerCase parseDate
          [StartPolling, FetchSettles 1 (Inr []), StopPolling, StartPolling, TimerFires] (boot 0))
       = Some (2, 0)
   \<and> map_option inflight (run toLowerCase parseDate [StartPolling, StartPolling] (boot 0))
       = Some 1"
  by (simp add: step_def boot_def new_service_def startPolling_def stopPolling_def
        pollForUpdates_def pollForUpdates_resume_def detectNewArticles_def Let_def)


section \<open>StoryImage: the candidate lists\<close>

lemma getAllUrls_first_seen:
  "getAllUrls (Some img) =
     first_seen (concat (map (push_tier (sizes img)) tier_names)
                 @ (if source_url img \<noteq> '''' then [source_url img] else []))"
  by (simp add: getAllUrls_def Let_def unique_js_first_seen tier_names_def)

lemma getAllUrls_distinct: "distinct (getAllUrls given)"
  by (cases given) (simp_all add: getAllUrls_def Let_def unique_js_first_seen distinct_first_seen)

lemma reduce_js_empty: "reduce_js f [] = Inl TypeError"
  by (simp add: reduce_js_def)

text \<open>
  C9 on the code. An image whose \<open>sizes\<close> object is empty has no sized tier and an
  original URL. With a target width other than 0, \<open>getImageUrl\<close> runs \<open>reduce\<close>
  with no initial value on the empty array of available sizes and throws a
  \<open>TypeError\<close>; the component calls it before \<open>getAllUrls\<close>, so the render ends
  there and there is no candidate list, on the web and elsewhere, with a numeric
  width (300, say) or with the default one. \<open>getAllUrls\<close> by itself would give the
  original URL alone, which is what the component computes when the \<open>sizes\<close>
  object is absent.
\<close>

theorem empty_sizes_stop_render:
  "concat (map (push_tier (sizes empty_sizes_image)) tier_names) = []
   \<and> StoryImage fl isWeb screenWidth (Some w) (Some empty_sizes_image)
       = (if w = 0 then Inr (Some ''photo.jpg'', [''photo.jpg'']) else Inl TypeError)
   \<and> StoryImage fl isWeb screenWidth (Some 300) (Some empty_sizes_image) = Inl TypeError
   \<and> StoryImage fl isWeb screenWidth None (Some empty_sizes_image)
       = (if fl (screenWidth * fl (9 / 10)) = 0 then Inr (Some ''photo.jpg'', [''photo.jpg''])
          else Inl TypeError)
   \<and> getAllUrls (Some empty_sizes_image) = [''photo.jpg'']
   \<and> StoryImage fl isWeb screenWidth (Some w) (Some bare_image)
       = Inr (Some ''photo.jpg'', [''photo.jpg''])"
  by (simp add: StoryImage_def getImageUrl_def urlOptions_def getAllUrls_def push_tier_def
        availableSizes_def reduce_js_def unique_js_def set_add_def tier_names_def
        empty_sizes_image_def bare_image_def Let_def)

lemma foldl_closer:
  "\<exists>before after. b # xs = before @ foldl (closer fl t) b xs # after
     \<and> (\<forall>s \<in> set before. width_diff fl t (foldl (closer fl t) b xs) < width_diff fl t s)
     \<and> (\<forall>s \<in> set after. width_diff fl t (foldl (closer fl t) b xs) \<le> width_diff fl t s)"
proof (induction xs rule: rev_induct)
  case Nil
  have "[b] = [] @ b # []" by simp
  then show ?case by (metis empty_iff empty_set foldl_Nil)
next
  case (snoc x xs)
  let ?m = "foldl (closer fl t) b xs"
  from snoc obtain before after where
    split: "b # xs = before @ ?m # after"
    and bef: "\<forall>s \<in> set before. width_diff fl t ?m < width_diff fl t s"
    and aft: "\<forall>s \<in> set after. width_diff fl t ?m \<le> width_diff fl t s"
    by blast
  show ?case
  proof (cases "width_diff fl t x < width_diff fl t ?m")
    case True
    then have res: "foldl (closer fl t) b (xs @ [x]) = x"
      by (simp add: closer_def width_diff_def Let_def)
    have "b # (xs @ [x]) = (b # xs) @ x # []" by simp
    moreover have "\<forall>s \<in> set (b # xs). width_diff fl t x < width_diff fl t s"
    proof
      fix s assume "s \<in> set (b # xs)"
      with split have "s \<in> set before \<or> s = ?m \<or> s \<in> set after" by auto
      with bef aft True show "width_diff fl t x < width_diff fl t s" by fastforce
    qed
    ultimately show ?thesis unfolding res by (metis empty_iff empty_set)
  next
    case False
    then have res: "foldl (closer fl t) b (xs @ [x]) = ?m"
      by (simp add: closer_def width_diff_def Let_def)
    from split have "b # (xs @ [x]) = before @ ?m # (after @ [x])" by simp
    moreover from aft False
    have "\<forall>s \<in> set (after @ [x]). width_diff fl t ?m \<le> width_diff fl t s"
      by auto
    ultimately show ?thesis unfolding res using bef by blast
  qed
qed

lemma reduce_js_closest:
  assumes "tiers \<noteq> []"
  shows "\<exists>best. reduce_js (closer fl t) tiers = Inr best \<and> closest_first fl t tiers best"
proof -
  from assms obtain b xs where tiers: "tiers = b # xs" by (cases tiers) auto
  from foldl_closer [of b xs fl t] show ?thesis
    unfolding tiers closest_first_def reduce_js_def by auto
qed

text \<open>
  C5, as stated, fails on the web platform: with target width 400 and the tiers
  thumbnail (150), medium (400) and large (1200), the first candidate of
  \<open>getImageUrl\<close>, which is the URL it returns, is the thumbnail, and medium comes
  second. The list of \<open>getAllUrls\<close> takes no target width and starts with the
  thumbnail on every platform.
\<close>

theorem web_prefers_thumbnail_counterexample:
  "urlOptions exact_arithmetic True (Some 400) three_tier_image
     = Inr [''photo-150.jpg'', ''photo-400.jpg'', ''photo-400.jpg'', ''photo-150.jpg'',
            ''photo-400.jpg'', ''photo-1200.jpg'', ''photo.jpg'']
   \<and> getImageUrl exact_arithmetic True (Some 400) (Some three_tier_image)
     = Inr (Some ''photo-150.jpg'')
   \<and> getAllUrls (Some three_tier_image)
     = [''photo-150.jpg'', ''photo-400.jpg'', ''photo-1200.jpg'', ''photo.jpg'']"
  by (simp add: getImageUrl_def getAllUrls_def urlOptions_def three_tier_image_def push_tier_def
        reduce_js_def availableSizes_def closer_def unique_js_def set_add_def
        exact_arithmetic_def Let_def)

text \<open>
  C5, amended. Distances and the bound are those of the code's arithmetic, whatever
  its rounding. When a non-zero target width is given and at least one tier has a
  URL, \<open>getImageUrl\<close> picks the tier whose width is closest to the target width,
  the first one in the iteration order of the tiers when several are equally close.
  When the width of that tier is at most 1.5 times the target width, its URL is the
  first candidate on a platform other than the web, and it is the URL that
  \<open>getImageUrl\<close> returns there; on the web the thumbnail, medium and
  woocommerce-thumbnail tiers that exist come before it. When that tier is wider,
  it is not added, and the candidates are the fixed order alone (after the web's
  small tiers). The list of \<open>getAllUrls\<close> is the fixed order of the tiers and the
  original URL at their first places, with no target width in it.
\<close>

theorem closest_tier_first:
  assumes "sizes img = Some entries" and "availableSizes entries \<noteq> []" and "t \<noteq> 0"
  shows "(\<exists>best. closest_first fl t (availableSizes entries) best \<and>
     (if real_of_int (size_width best) \<le> fl (t * 1.5)
      then urlOptions fl False (Some t) img = Inr (size_source_url best # fixed_order img)
         \<and> getImageUrl fl False (Some t) (Some img) = Inr (Some (size_source_url best))
         \<and> urlOptions fl True (Some t) img
             = Inr (web_first img @ size_source_url best # fixed_order img)
      else urlOptions fl False (Some t) img = Inr (fixed_order img)
         \<and> urlOptions fl True (Some t) img = Inr (web_first img @ fixed_order img)))
   \<and> getAllUrls (Some img)
       = first_seen (concat (map (push_tier (sizes img)) tier_names)
                     @ (if source_url img \<noteq> '''' then [source_url img] else []))"
proof -
  from reduce_js_closest [OF assms(2), of fl t] obtain best where
    red: "reduce_js (closer fl t) (availableSizes entries) = Inr best"
    and cl: "closest_first fl t (availableSizes entries) best" by blast
  from cl have "best \<in> set (availableSizes entries)" by (auto simp: closest_first_def)
  then have url: "size_source_url best \<noteq> ''''" by (auto simp: availableSizes_def)
  have fo: "fixed_order img =
      push_tier (sizes img) ''thumbnail'' @ push_tier (sizes img) ''medium''
      @ push_tier (sizes img) ''woocommerce_thumbnail'' @ push_tier (sizes img) ''medium_large''
      @ push_tier (sizes img) ''large'' @ push_tier (sizes img) ''full'' @ [source_url img]"
    by (simp add: fixed_order_def tier_names_def)
  have first: "\<exists>best. closest_first fl t (availableSizes entries) best \<and>
     (if real_of_int (size_width best) \<le> fl (t * 1.5)
      then urlOptions fl False (Some t) img = Inr (size_source_url best # fixed_order img)
         \<and> getImageUrl fl False (Some t) (Some img) = Inr (Some (size_source_url best))
         \<and> urlOptions fl True (Some t) img
             = Inr (web_first img @ size_source_url best # fixed_order img)
      else urlOptions fl False (Some t) img = Inr (fixed_order img)
         \<and> urlOptions fl True (Some t) img = Inr (web_first img @ fixed_order img))"
  proof (cases "real_of_int (size_width best) \<le> fl (t * 1.5)")
    case True
    have a: "urlOptions fl False (Some t) img = Inr (size_source_url best # fixed_order img)"
      using assms red True by (simp add: urlOptions_def Let_def fo)
    have b: "urlOptions fl True (Some t) img
               = Inr (web_first img @ size_source_url best # fixed_order img)"
      using assms red True by (simp add: urlOptions_def Let_def fo web_first_def)
    have c: "getImageUrl fl False (Some t) (Some img) = Inr (Some (size_source_url best))"
      using url by (simp add: getImageUrl_def a unique_js_first_seen)
    from cl True a b c show ?thesis by auto
  next
    case False
    have a: "urlOptions fl False (Some t) img = Inr (fixed_order img)"
      using assms red False by (simp add: urlOptions_def Let_def fo)
    have b: "urlOptions fl True (Some t) img = Inr (web_first img @ fixed_order img)"
      using assms red False by (simp add: urlOptions_def Let_def fo web_first_def)
    from cl False a b show ?thesis by auto
  qed
  with getAllUrls_first_seen [of img] show ?thesis by blast
qed

theorem closest_tier_first_witness:
  "sizes three_tier_image
     = Some [(''thumbnail'', \<lparr>size_source_url = ''photo-150.jpg'', size_width = 150\<rparr>),
             (''medium'', \<lparr>size_source_url = ''photo-400.jpg'', size_width = 400\<rparr>),
             (''large'', \<lparr>size_source_url = ''photo-1200.jpg'', size_width = 1200\<rparr>)]
   \<and> availableSizes
        [(''thumbnail'', \<lparr>size_source_url = ''photo-150.jpg'', size_width = 150\<rparr>),
         (''medium'', \<lparr>size_source_url = ''photo-400.jpg'', size_width = 400\<rparr>),
         (''large'', \<lparr>size_source_url = ''photo-1200.jpg'', size_width = 1200\<rparr>)] \<noteq> []
   \<and> (400::real) \<noteq> 0
   \<and> getImageUrl exact_arithmetic False (Some 400) (Some three_tier_image)
       = Inr (Some ''photo-400.jpg'')
   \<and> urlOptions exact_arithmetic False (Some 400) three_tier_image
       = Inr (''photo-400.jpg'' # fixed_order three_tier_image)
   \<and> getAllUrls (Some three_tier_image)
       = [''photo-150.jpg'', ''photo-400.jpg'', ''photo-1200.jpg'', ''photo.jpg'']"
proof -
  let ?th = "\<lparr>size_source_url = ''photo-150.jpg'', size_width = 150\<rparr>"
  let ?me = "\<lparr>size_source_url = ''photo-400.jpg'', size_width = 400\<rparr>"
  let ?la = "\<lparr>size_source_url = ''photo-1200.jpg'', size_width = 1200\<rparr>"
  let ?entries = "[(''thumbnail'', ?th), (''medium'', ?me), (''large'', ?la)]"
  let ?fl = exact_arithmetic
  have h1: "sizes three_tier_image = Some ?entries"
    by (simp add: three_tier_image_def)
  have av: "availableSizes ?entries = [?th, ?me, ?la]"
    by (simp add: availableSizes_def)
  then have h2: "availableSizes ?entries \<noteq> []" by simp
  have h3: "(400::real) \<noteq> 0" by simp
  have fs: "first_seen [''photo-150.jpg'', ''photo-400.jpg'', ''photo-1200.jpg'', ''photo.jpg'']
              = [''photo-150.jpg'', ''photo-400.jpg'', ''photo-1200.jpg'', ''photo.jpg'']"
    by simp
  from closest_tier_first [OF h1 h2 h3, of ?fl] obtain best where
    cl: "closest_first ?fl 400 [?th, ?me, ?la] best"
    and sel: "if real_of_int (size_width best) \<le> ?fl (400 * 1.5)
      then urlOptions ?fl False (Some 400) three_tier_image
             = Inr (size_source_url best # fixed_order three_tier_image)
         \<and> getImageUrl ?fl False (Some 400) (Some three_tier_image)
             = Inr (Some (size_source_url best))
         \<and> urlOptions ?fl True (Some 400) three_tier_image
             = Inr (web_first three_tier_image @ size_source_url best
                    # fixed_order three_tier_image)
      else urlOptions ?fl False (Some 400) three_tier_image = Inr (fixed_order three_tier_image)
         \<and> urlOptions ?fl True (Some 400) three_tier_image
             = Inr (web_first three_tier_image @ fixed_order three_tier_image)"
    and all: "getAllUrls (Some three_tier_image)
       = first_seen (concat (map (push_tier (sizes three_tier_image)) tier_names)
                     @ (if source_url three_tier_image \<noteq> ''''
                        then [source_url three_tier_image] else []))"
    unfolding av by blast
  from all fs have urls: "getAllUrls (Some three_tier_image)
       = [''photo-150.jpg'', ''photo-400.jpg'', ''photo-1200.jpg'', ''photo.jpg'']"
    by (simp add: three_tier_image_def push_tier_def tier_names_def)
  from cl obtain before after where
    split: "[?th, ?me, ?la] = before @ best # after"
    and bef: "\<forall>s \<in> set before. width_diff ?fl 400 best < width_diff ?fl 400 s"
    and aft: "\<forall>s \<in> set after. width_diff ?fl 400 best \<le> width_diff ?fl 400 s"
    unfolding closest_first_def by blast
  from split have "(before = [] \<and> best = ?th \<and> after = [?me, ?la])
      \<or> (before = [?th] \<and> best = ?me \<and> after = [?la])
      \<or> (before = [?th, ?me] \<and> best = ?la \<and> after = [])"
    by (auto simp: Cons_eq_append_conv)
  with bef aft have "best = ?me"
    by (auto simp: width_diff_def exact_arithmetic_def)
  with sel h1 h2 h3 urls show ?thesis by (simp add: exact_arithmetic_def)
qed


section \<open>WordPressService: the category of a request\<close>

text \<open>
  \<open>parseInt\<close> reads the digits a string starts with: a slug that begins with
  digits is read as a number, every other slug is not a number.
\<close>

lemma parseInt_examples:
  "parseInt ''33629'' = Some 33629 \<and> parseInt ''7-questions'' = Some 7
   \<and> parseInt ''local'' = None \<and> parseInt ''all'' = None"
  by (simp add: parseInt_def digitsValue_def isDigitIn_def digitValue_def isWhiteSpace_def
        Let_def)

text \<open>
  C6 on the code. The slug "7-questions" is not a number, and the categories
  lookup knows it as category 33629. \<open>getPosts\<close> reads the number 7 from its first
  character, makes no lookup and asks for the posts of category 7. A slug that does
  not start with a digit is looked up: "feel-good" is requested as category 30654,
  and without any category when the lookup cannot be reached.
\<close>

theorem numeric_prefix_slug_skips_lookup:
  "parseInt ''7-questions'' = Some 7
   \<and> first_match categories_endpoint ''7-questions'' = Some 33629
   \<and> getPosts posts_endpoint categories_endpoint 10 ''7-questions'' 1
       = ([''https://eastidahonews.com/wp-json/wp/v2/posts?per_page=10&page=1&_embed&categories=7''],
          Returned [story 1, story 2])
   \<and> fst (getPosts posts_endpoint categories_endpoint 10 ''feel-good'' 1)
       = [''https://eastidahonews.com/wp-json/wp/v2/categories?slug=feel-good'',
          ''https://eastidahonews.com/wp-json/wp/v2/posts?per_page=10&page=1&_embed&categories=30654'']
   \<and> getPosts posts_endpoint offline_categories 10 ''feel-good'' 1
       = ([''https://eastidahonews.com/wp-json/wp/v2/categories?slug=feel-good'',
           ''https://eastidahonews.com/wp-json/wp/v2/posts?per_page=10&page=1&_embed''],
          Returned [story 1, story 2])"
proof -
  have p7: "parseInt ''7-questions'' = Some 7"
    and pf: "parseInt ''feel-good'' = None"
    by (simp_all add: parseInt_def digitsValue_def isDigitIn_def digitValue_def
          isWhiteSpace_def Let_def)
  have url0: "postsUrl 10 1
      = ''https://eastidahonews.com/wp-json/wp/v2/posts?per_page=10&page=1&_embed''"
    by (simp add: postsUrl_def WORDPRESS_API_URL_def numToString_def string_of_nat.simps)
  have n7: "numToString 7 = ''7''" and n30654: "numToString 30654 = ''30654''"
    by (simp_all add: numToString_def string_of_nat.simps)
  have c7: "categoryUrl ''7-questions''
      = ''https://eastidahonews.com/wp-json/wp/v2/categories?slug=7-questions''"
    and cf: "categoryUrl ''feel-good''
      = ''https://eastidahonews.com/wp-json/wp/v2/categories?slug=feel-good''"
    by (simp_all add: categoryUrl_def WORDPRESS_API_URL_def)
  have fin: "getPosts_finish slug (posts_endpoint url) = Returned [story 1, story 2]" for slug url
    by (simp add: getPosts_finish_def posts_endpoint_def)
  have m7: "first_match categories_endpoint ''7-questions'' = Some 33629"
    by (simp add: first_match_def categories_endpoint_def)
  have a: "getPosts posts_endpoint categories_endpoint 10 ''7-questions'' 1
       = ([''https://eastidahonews.com/wp-json/wp/v2/posts?per_page=10&page=1&_embed&categories=7''],
          Returned [story 1, story 2])"
    by (simp add: getPosts_def Let_def p7 url0 n7 fin)
  have b: "fst (getPosts posts_endpoint categories_endpoint 10 ''feel-good'' 1)
       = [''https://eastidahonews.com/wp-json/wp/v2/categories?slug=feel-good'',
          ''https://eastidahonews.com/wp-json/wp/v2/posts?per_page=10&page=1&_embed&categories=30654'']"
    by (simp add: getPosts_def Let_def pf url0 n30654 getCategoryId_def categories_endpoint_def
          c7 cf)
  have c: "getPosts posts_endpoint offline_categories 10 ''feel-good'' 1
       = ([''https://eastidahonews.com/wp-json/wp/v2/categories?slug=feel-good'',
           ''https://eastidahonews.com/wp-json/wp/v2/posts?per_page=10&page=1&_embed''],
          Returned [story 1, story 2])"
    by (simp add: getPosts_def Let_def pf url0 getCategoryId_def offline_categories_def cf fin)
  from p7 m7 a b c show ?thesis by simp
qed


section \<open>ArchiveService: the cache key\<close>

lemma same_fields_same_key: "filter_fields f = filter_fields g \<Longrightarrow> cacheKey f = cacheKey g"
  by (simp add: filter_fields_def cacheKey_def)

lemma same_fields_same_params:
  "filter_fields f = filter_fields g \<Longrightarrow> searchParams f = searchParams g"
  by (simp add: filter_fields_def searchParams_def)

text \<open>
  C7 on the code. The key joins the fields with "-" and a field may contain "-"
  itself: the category "idaho-falls" with an empty search and the category "idaho"
  with the search "falls-" are different filters with the one key
  "idaho-falls-----10". After a call with the first filter, a call with the second
  sends no request and is served the two stories of the first; asked first, it
  fetches its own story.
\<close>

theorem separator_collision_serves_other_filter:
  "cacheKey (no_filter\<lparr>category := Some ''idaho-falls'', search := Some ''''\<rparr>)
     = ''idaho-falls-----10''
   \<and> cacheKey (no_filter\<lparr>category := Some ''idaho'', search := Some ''falls-''\<rparr>)
     = ''idaho-falls-----10''
   \<and> filter_fields (no_filter\<lparr>category := Some ''idaho-falls'', search := Some ''''\<rparr>)
     \<noteq> filter_fields (no_filter\<lparr>category := Some ''idaho'', search := Some ''falls-''\<rparr>)
   \<and> getStories_calls example_server
        [no_filter\<lparr>category := Some ''idaho-falls'', search := Some ''''\<rparr>,
         no_filter\<lparr>category := Some ''idaho'', search := Some ''falls-''\<rparr>] new_archive
     = [(\<lparr>stories = [story 1, story 2], total = Some 500, hasMore = True\<rparr>,
         [[(''per_page'', ''10''), (''_embed'', ''true''), (''categories'', ''idaho-falls'')]]),
        (\<lparr>stories = [story 1, story 2], total = Some 500, hasMore = True\<rparr>, [])]
   \<and> getStories_calls example_server
        [no_filter\<lparr>category := Some ''idaho'', search := Some ''falls-''\<rparr>] new_archive
     = [(\<lparr>stories = [story 3], total = Some 1, hasMore = False\<rparr>,
         [[(''per_page'', ''10''), (''_embed'', ''true''), (''categories'', ''idaho''),
           (''search'', ''falls-'')]])]"
proof -
  have k1: "cacheKey (no_filter\<lparr>category := Some ''idaho-falls'', search := Some ''''\<rparr>)
              = ''idaho-falls-----10''"
    and k2: "cacheKey (no_filter\<lparr>category := Some ''idaho'', search := Some ''falls-''\<rparr>)
              = ''idaho-falls-----10''"
    by code_simp+
  have d: "filter_fields (no_filter\<lparr>category := Some ''idaho-falls'', search := Some ''''\<rparr>)
     \<noteq> filter_fields (no_filter\<lparr>category := Some ''idaho'', search := Some ''falls-''\<rparr>)"
    by (simp add: filter_fields_def no_filter_def or_default_def)
  have c1: "getStories_calls example_server
        [no_filter\<lparr>category := Some ''idaho-falls'', search := Some ''''\<rparr>,
         no_filter\<lparr>category := Some ''idaho'', search := Some ''falls-''\<rparr>] new_archive
     = [(\<lparr>stories = [story 1, story 2], total = Some 500, hasMore = True\<rparr>,
         [[(''per_page'', ''10''), (''_embed'', ''true''), (''categories'', ''idaho-falls'')]]),
        (\<lparr>stories = [story 1, story 2], total = Some 500, hasMore = True\<rparr>, [])]"
    by code_simp
  have c2: "getStories_calls example_server
        [no_filter\<lparr>category := Some ''idaho'', search := Some ''falls-''\<rparr>] new_archive
     = [(\<lparr>stories = [story 3], total = Some 1, hasMore = False\<rparr>,
         [[(''per_page'', ''10''), (''_embed'', ''true''), (''categories'', ''idaho''),
           (''search'', ''falls-'')]])]"
    by code_simp
  from k1 k2 d c1 c2 show ?thesis by (simp only: simp_thms)
qed


section \<open>ArchiveService: getStories\<close>

lemma getStories_hit:
  "cachedStories s (cacheKey options) = Some cached \<Longrightarrow>
   getStories fetch options s =
     (\<lparr>stories = cached, total = totalStories s,
       hasMore = less_number (length cached) (totalStories s)\<rparr>, s, [])"
  by (simp add: getStories_def)

lemma getStories_failure:
  assumes "cachedStories s (cacheKey options) = None"
    and "fetch_fails (fetch (searchParams options))"
  shows "getStories fetch options s
           = (empty_result, s\<lparr>isLoading := False\<rparr>, [searchParams options])"
  using assms
  by (auto simp: getStories_def fetch_fails_def Let_def split: fetch_result.splits sum.splits)

lemma getStories_miss_requests:
  "cachedStories s (cacheKey options) = None \<Longrightarrow>
   snd (snd (getStories fetch options s)) = [searchParams options]"
  by (auto simp: getStories_def Let_def split: fetch_result.splits sum.splits option.splits)

text \<open>
  C8. When the filter is not cached and the fetch fails (the promise rejects, the
  status is not OK, or the body does not decode), \<open>getStories\<close> returns no stories,
  total 0 and \<open>hasMore\<close> false after one request; the cached entries and the
  running total are what they were; and the next call with a filter of the same
  fields sends the request again, whatever the network does then.
\<close>

theorem failed_fetch_not_cached:
  assumes "cachedStories s (cacheKey options) = None"
    and "fetch_fails (fetch (searchParams options))"
    and "filter_fields again = filter_fields options"
  shows "fst (getStories fetch options s) = \<lparr>stories = [], total = Some 0, hasMore = False\<rparr>
     \<and> snd (snd (getStories fetch options s)) = [searchParams options]
     \<and> cachedStories (fst (snd (getStories fetch options s))) = cachedStories s
     \<and> totalStories (fst (snd (getStories fetch options s))) = totalStories s
     \<and> snd (snd (getStories later again (fst (snd (getStories fetch options s)))))
         = [searchParams options]"
proof -
  have r: "getStories fetch options s
             = (empty_result, s\<lparr>isLoading := False\<rparr>, [searchParams options])"
    using assms(1,2) by (rule getStories_failure)
  have "cachedStories (s\<lparr>isLoading := False\<rparr>) (cacheKey again) = None"
    using assms(1) same_fields_same_key [OF assms(3)] by simp
  then have "snd (snd (getStories later again (s\<lparr>isLoading := False\<rparr>))) = [searchParams again]"
    by (rule getStories_miss_requests)
  with same_fields_same_params [OF assms(3)] r show ?thesis
    by (simp add: empty_result_def)
qed

theorem failed_fetch_not_cached_witness:
  "cachedStories new_archive (cacheKey no_filter) = None
   \<and> fetch_fails (unreachable (searchParams no_filter))
   \<and> fst (getStories unreachable no_filter new_archive)
       = \<lparr>stories = [], total = Some 0, hasMore = False\<rparr>
   \<and> snd (snd (getStories example_server no_filter
        (fst (snd (getStories unreachable no_filter new_archive)))))
       = [[(''per_page'', ''10''), (''_embed'', ''true'')]]"
proof -
  have h1: "cachedStories new_archive (cacheKey no_filter) = None"
    by (simp add: new_archive_def)
  have h2: "fetch_fails (unreachable (searchParams no_filter))"
    by (simp add: fetch_fails_def unreachable_def)
  have p: "searchParams no_filter = [(''per_page'', ''10''), (''_embed'', ''true'')]"
    by code_simp
  have h3: "filter_fields no_filter = filter_fields no_filter" ..
  from failed_fetch_not_cached
         [where s = new_archive and options = no_filter and fetch = unreachable
            and again = no_filter and later = example_server, OF h1 h2 h3]
       h1 h2 p
  show ?thesis by simp
qed

text \<open>
  C1 on the code. The first call for category 5 fetches two of 500 stories and
  returns total 500 and \<open>hasMore\<close> true. A search then fetches its only story, which
  sets the running total of the service to 1. The second call for category 5 sends
  no request and returns the two cached stories, but with total 1 and \<open>hasMore\<close>
  false: the hit reads the running total, not the total of its own entry.
\<close>

theorem cache_hit_reads_running_total:
  "getStories_calls example_server
     [no_filter\<lparr>category := Some ''5''\<rparr>, no_filter\<lparr>search := Some ''fire''\<rparr>,
      no_filter\<lparr>category := Some ''5''\<rparr>] new_archive
   = [(\<lparr>stories = [story 1, story 2], total = Some 500, hasMore = True\<rparr>,
       [[(''per_page'', ''10''), (''_embed'', ''true''), (''categories'', ''5'')]]),
      (\<lparr>stories = [story 3], total = Some 1, hasMore = False\<rparr>,
       [[(''per_page'', ''10''), (''_embed'', ''true''), (''search'', ''fire'')]]),
      (\<lparr>stories = [story 1, story 2], total = Some 1, hasMore = False\<rparr>, [])]"
  by code_simp

end
